theory Spec2Isabelle
  imports Complex_Main "HOL-Library.Word"
begin

section \<open>PCM codec (src/services/geminiLive.ts)\<close>

subsection \<open>JavaScript numbers\<close>

text \<open>
  A JavaScript Number is NaN, an infinity or a finite value. The finite elements of a
  \<^verbatim>\<open>Float32Array\<close> have 24-bit significands, so their products with the 15- and
  16-bit constants \<^verbatim>\<open>0x7FFF\<close> and \<^verbatim>\<open>0x8000\<close> are exact in double precision: finite
  values are real numbers and the products below are exact products. (Negative zero
  behaves like zero in every operation used here.)
\<close>

datatype number = NaN | NegInf | PosInf | Fin real

text \<open>\<^verbatim>\<open>Math.min(1, x)\<close> and \<^verbatim>\<open>Math.max(-1, x)\<close>: NaN is contagious.\<close>

fun Math_min_1 :: "number \<Rightarrow> number" where
  "Math_min_1 NaN = NaN"
| "Math_min_1 NegInf = NegInf"
| "Math_min_1 PosInf = Fin 1"
| "Math_min_1 (Fin x) = Fin (min 1 x)"

fun Math_max_m1 :: "number \<Rightarrow> number" where
  "Math_max_m1 NaN = NaN"
| "Math_max_m1 NegInf = Fin (- 1)"
| "Math_max_m1 PosInf = PosInf"
| "Math_max_m1 (Fin x) = Fin (max (- 1) x)"

text \<open>\<^verbatim>\<open>s < 0\<close>: false for NaN.\<close>

fun lt_zero :: "number \<Rightarrow> bool" where
  "lt_zero NaN = False"
| "lt_zero NegInf = True"
| "lt_zero PosInf = False"
| "lt_zero (Fin x) = (x < 0)"

text \<open>\<^verbatim>\<open>s * c\<close> for a positive integer constant \<open>c\<close>.\<close>

fun times_const :: "number \<Rightarrow> int \<Rightarrow> number" where
  "times_const NaN c = NaN"
| "times_const NegInf c = NegInf"
| "times_const PosInf c = PosInf"
| "times_const (Fin x) c = Fin (x * of_int c)"

text \<open>Truncation towards zero, the \<open>truncate\<close> of ECMAScript's integer conversions.\<close>

definition js_truncate :: "real \<Rightarrow> int" where
  "js_truncate x = (if x < 0 then \<lceil>x\<rceil> else \<lfloor>x\<rfloor>)"

text \<open>
  Storing a Number into an \<^verbatim>\<open>Int16Array\<close> element applies ToInt16: NaN and the
  infinities become 0, a finite value is truncated towards zero and reduced modulo
  \<open>2^16\<close>. The element is a 16-bit word, read as a signed value by \<open>sint\<close>.
\<close>

fun ToInt16 :: "number \<Rightarrow> 16 word" where
  "ToInt16 (Fin x) = word_of_int (js_truncate x)"
| "ToInt16 _ = 0"

text \<open>The body of the loop of \<^verbatim>\<open>float32ToInt16\<close>, for one element.\<close>

definition clampSample :: "number \<Rightarrow> number" where
  "clampSample x = Math_max_m1 (Math_min_1 x)"

definition scaleSample :: "number \<Rightarrow> number" where
  "scaleSample s = (if lt_zero s then times_const s 0x8000 else times_const s 0x7FFF)"

definition float32ToInt16 :: "number list \<Rightarrow> 16 word list" where
  "float32ToInt16 float32 = map (\<lambda>x. ToInt16 (scaleSample (clampSample x))) float32"

text \<open>
  The encoding as the specification words it, on finite samples: clamp to \<open>[-1, 1]\<close>,
  then round \<open>s * 32768\<close> for a negative sample and \<open>s * 32767\<close> otherwise.
\<close>

definition encodeFrame_spec :: "real list \<Rightarrow> int list" where
  "encodeFrame_spec samples =
     map (\<lambda>x. let s = max (- 1) (min 1 x)
              in if s < 0 then round (s * 32768) else round (s * 32767)) samples"

text \<open>What the code computes instead: truncation towards zero; NaN becomes 0.\<close>

fun encodeSample_trunc :: "number \<Rightarrow> int" where
  "encodeSample_trunc NaN = 0"
| "encodeSample_trunc NegInf = - 32768"
| "encodeSample_trunc PosInf = 32767"
| "encodeSample_trunc (Fin x) =
     (let s = max (- 1) (min 1 x)
      in if s < 0 then js_truncate (s * 32768) else js_truncate (s * 32767))"

subsection \<open>Transport text: base64\<close>

text \<open>
  Bytes are 8-bit words; a JavaScript string is a sequence of UTF-16 code units.
  Exceptions are values of the type \<open>error\<close>.
\<close>

type_synonym byte = "8 word"
type_synonym js_string = "16 word list"

datatype error = InvalidCharacterError | RangeError | NotSupportedError | TransportError

definition js_str :: "string \<Rightarrow> js_string" where
  "js_str s = map of_char s"

fun index_of :: "'a list \<Rightarrow> 'a \<Rightarrow> nat option" where
  "index_of [] x = None"
| "index_of (y # ys) x = (if x = y then Some 0 else map_option Suc (index_of ys x))"

text \<open>
  \<^verbatim>\<open>btoa\<close> and \<^verbatim>\<open>atob\<close> are functions of the browser, not of the repository. They are
  modelled after their definition in the HTML Standard: \<^verbatim>\<open>btoa\<close> throws on a code unit
  above \<open>0xFF\<close> and otherwise applies base64 with padding (RFC 4648, section 4) to the
  code units taken as bytes; \<^verbatim>\<open>atob\<close> is the standard's forgiving-base64 decode.
\<close>

definition b64_alphabet :: js_string where
  "b64_alphabet = js_str ''ABCDEFGHIJKLMNOPQRSTUVWXYZabcdefghijklmnopqrstuvwxyz0123456789+/''"

definition b64_pad :: "16 word" where
  "b64_pad = of_char CHR ''=''"

definition b64_char :: "nat \<Rightarrow> 16 word" where
  "b64_char n = b64_alphabet ! n"

definition b64_value :: "16 word \<Rightarrow> nat option" where
  "b64_value c = index_of b64_alphabet c"

text \<open>
  Encoding: three bytes are 24 bits, cut into four 6-bit groups; a final group of one or
  two bytes is padded with zero bits to 12 or 18 bits and completed with \<open>=\<close>.
\<close>

fun b64_encode :: "nat list \<Rightarrow> js_string" where
  "b64_encode [] = []"
| "b64_encode [a] =
     (let n = a * 16 in [b64_char (n div 64), b64_char (n mod 64), b64_pad, b64_pad])"
| "b64_encode [a, b] =
     (let n = (a * 256 + b) * 4
      in [b64_char (n div 4096), b64_char (n div 64 mod 64), b64_char (n mod 64), b64_pad])"
| "b64_encode (a # b # c # bs) =
     (let n = (a * 256 + b) * 256 + c
      in [b64_char (n div 262144), b64_char (n div 4096 mod 64),
          b64_char (n div 64 mod 64), b64_char (n mod 64)] @ b64_encode bs)"

text \<open>The 6-bit values of the encoding, without the padding (used to state lemmas).\<close>

fun b64_values :: "nat list \<Rightarrow> nat list" where
  "b64_values [] = []"
| "b64_values [a] = (let n = a * 16 in [n div 64, n mod 64])"
| "b64_values [a, b] = (let n = (a * 256 + b) * 4 in [n div 4096, n div 64 mod 64, n mod 64])"
| "b64_values (a # b # c # bs) =
     (let n = (a * 256 + b) * 256 + c
      in [n div 262144, n div 4096 mod 64, n div 64 mod 64, n mod 64] @ b64_values bs)"

definition btoa :: "js_string \<Rightarrow> error + js_string" where
  "btoa s = (if \<exists>c \<in> set s. 255 < c then Inl InvalidCharacterError
             else Inr (b64_encode (map unat s)))"

text \<open>ASCII whitespace: tab, line feed, form feed, carriage return, space.\<close>

definition ascii_whitespace :: "16 word \<Rightarrow> bool" where
  "ascii_whitespace c = (c = 9 \<or> c = 10 \<or> c = 12 \<or> c = 13 \<or> c = 32)"

text \<open>
  If the length is a multiple of four, one or two trailing \<open>=\<close> are removed.
\<close>

definition strip_padding :: "js_string \<Rightarrow> js_string" where
  "strip_padding d =
     (if length d mod 4 = 0 then
        (case rev d of
           p # q # r \<Rightarrow> if p = b64_pad \<and> q = b64_pad then rev r
                        else if p = b64_pad then rev (q # r) else d
         | _ \<Rightarrow> d)
      else d)"

text \<open>
  Decoding the 6-bit values: every 24 accumulated bits give three bytes; of a rest of
  12 bits the last four are discarded, of a rest of 18 bits the last two.
\<close>

fun b64_decode_values :: "nat list \<Rightarrow> nat list" where
  "b64_decode_values (p # q # r # s # vs) =
     (let n = ((p * 64 + q) * 64 + r) * 64 + s
      in [n div 65536, n div 256 mod 256, n mod 256] @ b64_decode_values vs)"
| "b64_decode_values [p, q, r] =
     (let n = ((p * 64 + q) * 64 + r) div 4 in [n div 256, n mod 256])"
| "b64_decode_values [p, q] = [(p * 64 + q) div 16]"
| "b64_decode_values _ = []"

definition atob :: "js_string \<Rightarrow> error + js_string" where
  "atob s =
     (let d = strip_padding (filter (\<lambda>c. \<not> ascii_whitespace c) s)
      in if length d mod 4 = 1 then Inl InvalidCharacterError
         else if \<exists>c \<in> set d. b64_value c = None then Inl InvalidCharacterError
         else Inr (map of_nat (b64_decode_values (map (\<lambda>c. the (b64_value c)) d))))"

text \<open>
  \<^verbatim>\<open>arrayBufferToBase64\<close>: the loop appends \<^verbatim>\<open>String.fromCharCode(bytes[i])\<close> for each
  byte, then \<^verbatim>\<open>btoa\<close> encodes the binary string.
\<close>

definition String_fromCharCode :: "byte \<Rightarrow> 16 word" where
  "String_fromCharCode b = ucast b"

definition arrayBufferToBase64 :: "byte list \<Rightarrow> error + js_string" where
  "arrayBufferToBase64 bytes = btoa (map String_fromCharCode bytes)"

text \<open>
  The decoding at the start of \<^verbatim>\<open>play\<close> (src/hooks/useAudioProcessor.ts):
  \<^verbatim>\<open>atob\<close>, then \<^verbatim>\<open>bytes[i] = binaryString.charCodeAt(i)\<close>, a store into a
  \<^verbatim>\<open>Uint8Array\<close>, which keeps the low eight bits.
\<close>

definition base64ToBytes :: "js_string \<Rightarrow> error + byte list" where
  "base64ToBytes base64Audio =
     (case atob base64Audio of
        Inl e \<Rightarrow> Inl e
      | Inr binaryString \<Rightarrow> Inr (map ucast binaryString))"

section \<open>Playback scheduler (useAudioPlayer, src/hooks/useAudioProcessor.ts)\<close>

text \<open>
  \<^verbatim>\<open>new Int16Array(bytes.buffer)\<close> views the bytes as little-endian 16-bit samples and
  throws a RangeError when the byte length is odd.
\<close>

fun le_pairs :: "byte list \<Rightarrow> 16 word list" where
  "le_pairs (lo # hi # bs) = word_cat hi lo # le_pairs bs"
| "le_pairs _ = []"

definition Int16Array_view :: "byte list \<Rightarrow> error + 16 word list" where
  "Int16Array_view bytes = (if odd (length bytes) then Inl RangeError else Inr (le_pairs bytes))"

text \<open>\<^verbatim>\<open>float32Data[i] = int16Data[i] / 32768.0\<close>\<close>

definition toFloat32 :: "16 word list \<Rightarrow> number list" where
  "toFloat32 int16Data = map (\<lambda>w. Fin (real_of_int (sint w) / 32768)) int16Data"

text \<open>
  An \<^verbatim>\<open>AudioBuffer\<close> of one channel. \<^verbatim>\<open>createBuffer\<close> throws NotSupportedError for a
  length of zero and for a sample rate outside the supported range; the range every
  implementation supports is 8000 to 96000 Hz. The duration is the length divided by the
  sample rate. Times are real numbers: the rounding of double-precision sums is not
  modelled.
\<close>

record audio_buffer =
  numberOfFrames :: nat
  bufferRate :: nat
  channelData :: "number list"

definition createBuffer :: "nat \<Rightarrow> nat \<Rightarrow> error + audio_buffer" where
  "createBuffer len rate =
     (if len = 0 \<or> rate < 8000 \<or> 96000 < rate then Inl NotSupportedError
      else Inr \<lparr>numberOfFrames = len, bufferRate = rate, channelData = replicate len (Fin 0)\<rparr>)"

definition duration :: "audio_buffer \<Rightarrow> real" where
  "duration buffer = real (numberOfFrames buffer) / real (bufferRate buffer)"

text \<open>
  An \<^verbatim>\<open>AudioBufferSourceNode\<close>: its identity (a fresh number), its buffer and the time
  given to \<^verbatim>\<open>start\<close>.
\<close>

record source_node =
  node_id :: nat
  node_buffer :: audio_buffer
  start_when :: real

text \<open>The calls made on the output device, in the order they are made.\<close>

datatype command = Start source_node | Stop nat | Resume

datatype context_state = Suspended | Running

text \<open>
  The state of one \<^verbatim>\<open>useAudioPlayer\<close>: the three refs, the \<^verbatim>\<open>isPlaying\<close> state, the
  hook's \<^verbatim>\<open>sampleRate\<close> argument, the counter that gives nodes their identity, and the
  calls made on the device.
\<close>

record player =
  audioContextRef :: "context_state option"
  nextStartTimeRef :: real
  sourceNodesRef :: "source_node list"
  isPlaying :: bool
  sampleRate :: nat
  nextNodeId :: nat
  device :: "command list"

definition useAudioPlayer :: "nat \<Rightarrow> player" where
  "useAudioPlayer rate =
     \<lparr>audioContextRef = None, nextStartTimeRef = 0, sourceNodesRef = [], isPlaying = False,
      sampleRate = rate, nextNodeId = 0, device = []\<rparr>"


text \<open>
  The scheduling part of \<^verbatim>\<open>play\<close>, from \<^verbatim>\<open>createBufferSource\<close> on. \<open>currentTime\<close> is
  the value read from \<^verbatim>\<open>audioContextRef.current.currentTime\<close>. (\<^verbatim>\<open>source.start\<close> throws
  only for a negative time; the device time is never negative, and the call is taken to
  return.)
\<close>

definition schedule :: "real \<Rightarrow> audio_buffer \<Rightarrow> player \<Rightarrow> player" where
  "schedule currentTime buffer st =
     (let st1 = (if nextStartTimeRef st < currentTime
                 then st\<lparr>nextStartTimeRef := currentTime\<rparr> else st);
          source = \<lparr>node_id = nextNodeId st1, node_buffer = buffer,
                    start_when = nextStartTimeRef st1\<rparr>
      in st1\<lparr>nextStartTimeRef := nextStartTimeRef st1 + duration buffer,
               sourceNodesRef := sourceNodesRef st1 @ [source],
               isPlaying := True,
               nextNodeId := Suc (nextNodeId st1),
               device := device st1 @ [Start source]\<rparr>)"

text \<open>
  \<^verbatim>\<open>play\<close>. An exception of \<^verbatim>\<open>atob\<close>, of the \<^verbatim>\<open>Int16Array\<close> view or of
  \<^verbatim>\<open>createBuffer\<close> rejects the call before any ref is written.
\<close>

definition play :: "real \<Rightarrow> js_string \<Rightarrow> player \<Rightarrow> error + player" where
  "play currentTime base64Audio st =
     (case audioContextRef st of
        None \<Rightarrow> Inr st
      | Some ctx \<Rightarrow>
          (case base64ToBytes base64Audio of
             Inl e \<Rightarrow> Inl e
           | Inr bytes \<Rightarrow>
               (case Int16Array_view bytes of
                  Inl e \<Rightarrow> Inl e
                | Inr int16Data \<Rightarrow>
                    (let float32Data = toFloat32 int16Data
                     in case createBuffer (length float32Data) (sampleRate st) of
                          Inl e \<Rightarrow> Inl e
                        | Inr buffer \<Rightarrow>
                            Inr (schedule currentTime
                                   (buffer\<lparr>channelData := float32Data\<rparr>) st)))))"

text \<open>The \<^verbatim>\<open>onended\<close> handler of a source node.\<close>

definition onended :: "source_node \<Rightarrow> player \<Rightarrow> player" where
  "onended source st =
     (let st1 = st\<lparr>sourceNodesRef := filter (\<lambda>s. node_id s \<noteq> node_id source) (sourceNodesRef st)\<rparr>
      in if length (sourceNodesRef st1) = 0 then st1\<lparr>isPlaying := False\<rparr> else st1)"

text \<open>
  \<^verbatim>\<open>stop\<close>. \<open>halt\<close> is the device's answer to \<^verbatim>\<open>node.stop()\<close>: the exception it throws,
  if any. The \<^verbatim>\<open>try\<close> block is \<open>node_stop\<close>; the empty \<^verbatim>\<open>catch\<close> keeps the state.
\<close>

definition node_stop :: "(source_node \<Rightarrow> error option) \<Rightarrow> source_node \<Rightarrow> player \<Rightarrow> error + player" where
  "node_stop halt node st =
     (case halt node of
        Some e \<Rightarrow> Inl e
      | None \<Rightarrow> Inr (st\<lparr>device := device st @ [Stop (node_id node)]\<rparr>))"

fun stop_each :: "(source_node \<Rightarrow> error option) \<Rightarrow> source_node list \<Rightarrow> player \<Rightarrow> player" where
  "stop_each halt [] st = st"
| "stop_each halt (node # nodes) st =
     stop_each halt nodes (case node_stop halt node st of Inl e \<Rightarrow> st | Inr st' \<Rightarrow> st')"

definition stop :: "(source_node \<Rightarrow> error option) \<Rightarrow> real \<Rightarrow> player \<Rightarrow> error + player" where
  "stop halt currentTime st =
     (let st1 = stop_each halt (sourceNodesRef st) st;
          st2 = st1\<lparr>sourceNodesRef := []\<rparr>;
          st3 = (case audioContextRef st2 of
                   None \<Rightarrow> st2
                 | Some ctx \<Rightarrow> st2\<lparr>nextStartTimeRef := currentTime\<rparr>)
      in Inr (st3\<lparr>isPlaying := False\<rparr>))"




text \<open>A chunk of \<open>n\<close> bytes of silence, as \<^verbatim>\<open>arrayBufferToBase64\<close> encodes it.\<close>

definition silence :: "nat \<Rightarrow> js_string" where
  "silence n = b64_encode (map unat (replicate n (0 :: byte)))"

section \<open>Session protocol (GeminiLiveService, src/services/geminiLive.ts)\<close>

subsection \<open>Inbound messages\<close>

text \<open>
  The fields of a \<^verbatim>\<open>LiveServerMessage\<close> that \<^verbatim>\<open>onmessage\<close> reads; every field is
  optional.
\<close>

record blob =
  blob_data :: "js_string option"

record part =
  inlineData :: "blob option"

record content =
  parts :: "part list option"

record transcription =
  transcription_text :: "js_string option"

record server_content =
  outputTranscription :: "transcription option"
  turnComplete :: "bool option"
  interrupted :: "bool option"
  modelTurn :: "content option"

record server_message =
  serverContent :: "server_content option"

text \<open>
  The calls \<^verbatim>\<open>onmessage\<close> makes on the callbacks given to \<^verbatim>\<open>connect\<close>; the callbacks
  are taken to return.
\<close>

datatype callback = OnTranscription js_string | OnTurnEnd | OnAudioData js_string

text \<open>Truthiness of an optional boolean: absent and false are falsy.\<close>

fun truthy_bool :: "bool option \<Rightarrow> bool" where
  "truthy_bool None = False"
| "truthy_bool (Some b) = b"

text \<open>\<^verbatim>\<open>parts?.[0]\<close>: the first element, undefined for an absent or empty array.\<close>

fun first_part :: "part list option \<Rightarrow> part option" where
  "first_part None = None"
| "first_part (Some []) = None"
| "first_part (Some (p # ps)) = Some p"

definition outputTx :: "server_message \<Rightarrow> js_string option" where
  "outputTx message =
     Option.bind (Option.bind (serverContent message) outputTranscription) transcription_text"

definition audioData :: "server_message \<Rightarrow> js_string option" where
  "audioData message =
     Option.bind
       (Option.bind
          (first_part (Option.bind (Option.bind (serverContent message) modelTurn) parts))
          inlineData)
       blob_data"

definition turnEnded :: "server_message \<Rightarrow> bool" where
  "turnEnded message =
     (truthy_bool (Option.bind (serverContent message) turnComplete)
      \<or> truthy_bool (Option.bind (serverContent message) interrupted))"

text \<open>
  \<^verbatim>\<open>onmessage\<close>. The tests \<^verbatim>\<open>if (outputTx)\<close> and \<^verbatim>\<open>if (audioData)\<close> are tests of
  truthiness: an absent string and the empty string are both falsy.
\<close>

definition onmessage :: "server_message \<Rightarrow> callback list" where
  "onmessage message =
     (case outputTx message of
        None \<Rightarrow> []
      | Some tx \<Rightarrow> if tx = [] then [] else [OnTranscription tx])
     @ (if turnEnded message then [OnTurnEnd] else [])
     @ (case audioData message of
          None \<Rightarrow> []
        | Some d \<Rightarrow> if d = [] then [] else [OnAudioData d])"

text \<open>
  An inlined audio payload anywhere in the parts array, and the number of times a given
  callback is called.
\<close>

definition audio_anywhere :: "server_message \<Rightarrow> bool" where
  "audio_anywhere message =
     (case Option.bind (Option.bind (serverContent message) modelTurn) parts of
        None \<Rightarrow> False
      | Some ps \<Rightarrow> list_ex (\<lambda>p. Option.bind (inlineData p) blob_data \<noteq> None) ps)"


fun is_audio :: "callback \<Rightarrow> bool" where
  "is_audio (OnAudioData d) = True"
| "is_audio _ = False"

subsection \<open>Outbound audio\<close>

record realtime_input =
  mimeType :: js_string
  media_data :: js_string

text \<open>
  A session is the behaviour of its \<^verbatim>\<open>sendRealtimeInput\<close>: the exception it throws for a
  message, if any. \<^verbatim>\<open>sessionPromise\<close> is null, or a promise that resolves to a session
  or rejects. The service state also holds the calls made on the session and the lines
  written by \<^verbatim>\<open>console.error\<close>.
\<close>

datatype session_promise =
  Resolved "realtime_input \<Rightarrow> error option"
| Rejected error

record service =
  sessionPromise :: "session_promise option"
  sendRealtimeInput_calls :: "realtime_input list"
  console_error :: "(string \<times> error) list"

text \<open>
  The \<^verbatim>\<open>try\<close> block of \<^verbatim>\<open>sendAudioChunk\<close>: the state it leaves and the exception it
  ends with, if any. The call on the session is recorded whether or not it throws.
\<close>

definition sendAudioChunk_try :: "session_promise \<Rightarrow> js_string \<Rightarrow> service \<Rightarrow> service \<times> error option" where
  "sendAudioChunk_try promise base64PCM svc =
     (case promise of
        Rejected e \<Rightarrow> (svc, Some e)
      | Resolved session \<Rightarrow>
          (let input = \<lparr>mimeType = js_str ''audio/pcm;rate=16000'', media_data = base64PCM\<rparr>
           in (svc\<lparr>sendRealtimeInput_calls := sendRealtimeInput_calls svc @ [input]\<rparr>,
               session input)))"

text \<open>
  \<^verbatim>\<open>sendAudioChunk\<close>: returns at once without a session promise; otherwise the
  \<^verbatim>\<open>catch\<close> logs the exception of the \<^verbatim>\<open>try\<close> block and returns.
\<close>

definition sendAudioChunk :: "js_string \<Rightarrow> service \<Rightarrow> error + service" where
  "sendAudioChunk base64PCM svc =
     (case sessionPromise svc of
        None \<Rightarrow> Inr svc
      | Some promise \<Rightarrow>
          (case sendAudioChunk_try promise base64PCM svc of
             (svc1, None) \<Rightarrow> Inr svc1
           | (svc1, Some e) \<Rightarrow>
               Inr (svc1\<lparr>console_error := console_error svc1 @
                             [(''Error sending audio chunk'', e)]\<rparr>)))"

text \<open>
  A channel is open when the session promise has resolved to a session. After a failed
  \<^verbatim>\<open>connect\<close> the field still holds the rejected promise; only \<^verbatim>\<open>disconnect\<close> sets it
  back to null.
\<close>

definition channelOpen :: "service \<Rightarrow> bool" where
  "channelOpen svc =
     (case sessionPromise svc of
        None \<Rightarrow> False
      | Some (Rejected e) \<Rightarrow> False
      | Some (Resolved session) \<Rightarrow> True)"

definition disconnect :: "service \<Rightarrow> service" where
  "disconnect svc = svc\<lparr>sessionPromise := None\<rparr>"

section \<open>Codec: encoding\<close>

lemma js_truncate_bounds:
  assumes "- 32768 \<le> x" "x \<le> 32767"
  shows "- 32768 \<le> js_truncate x \<and> js_truncate x \<le> 32767"
proof (cases "x < 0")
  case True
  have "\<lceil>x\<rceil> \<le> 0" using True by (simp add: ceiling_le_iff)
  moreover have "- 32768 \<le> \<lceil>x\<rceil>" using assms(1) by (simp add: le_ceiling_iff)
  ultimately show ?thesis using True by (simp add: js_truncate_def)
next
  case False
  have "0 \<le> \<lfloor>x\<rfloor>" using False by simp
  moreover have "\<lfloor>x\<rfloor> \<le> 32767" using assms(2) by (simp add: floor_le_iff)
  ultimately show ?thesis using False by (simp add: js_truncate_def)
qed

lemma sint_ToInt16_small:
  assumes "- 32768 \<le> k" "k \<le> 32767"
  shows "sint (word_of_int k :: 16 word) = k"
  using assms by (simp add: sint_sbintrunc' signed_take_bit_int_eq_self)

lemma clamped_scaled_bounds:
  fixes x :: real
  defines "s \<equiv> max (- 1) (min 1 x)"
  shows "s < 0 \<Longrightarrow> - 32768 \<le> s * 32768 \<and> s * 32768 \<le> 32767"
    and "\<not> s < 0 \<Longrightarrow> - 32768 \<le> s * 32767 \<and> s * 32767 \<le> 32767"
proof -
  have lo: "- 1 \<le> s" and hi: "s \<le> 1" by (simp_all add: s_def)
  show "s < 0 \<Longrightarrow> - 32768 \<le> s * 32768 \<and> s * 32768 \<le> 32767"
    using lo by simp
  show "\<not> s < 0 \<Longrightarrow> - 32768 \<le> s * 32767 \<and> s * 32767 \<le> 32767"
    using hi by simp
qed

lemma encodeSample_trunc_range:
  "- 32768 \<le> encodeSample_trunc x \<and> encodeSample_trunc x \<le> 32767"
proof (cases x)
  case (Fin r)
  show ?thesis
    using clamped_scaled_bounds [of r] js_truncate_bounds
    by (simp add: Fin Let_def)
qed simp_all

lemma sint_encode_sample:
  "sint (ToInt16 (scaleSample (clampSample x))) = encodeSample_trunc x"
proof (cases x)
  case (Fin r)
  define s where "s = max (- 1) (min 1 r)"
  have rhs: "encodeSample_trunc x =
      (if s < 0 then js_truncate (s * 32768) else js_truncate (s * 32767))"
    unfolding Fin s_def by (simp only: encodeSample_trunc.simps Let_def)
  have lhs: "scaleSample (clampSample x) =
      (if s < 0 then Fin (s * 32768) else Fin (s * 32767))"
    by (simp add: Fin clampSample_def scaleSample_def s_def min_def max_def)
  show ?thesis
  proof (cases "s < 0")
    case True
    have "- 32768 \<le> s * 32768 \<and> s * 32768 \<le> 32767"
      using clamped_scaled_bounds(1) [of r] True by (simp add: s_def)
    then have "sint (word_of_int (js_truncate (s * 32768)) :: 16 word) = js_truncate (s * 32768)"
      using js_truncate_bounds [of "s * 32768"] by (intro sint_ToInt16_small) simp_all
    then show ?thesis using True by (simp add: lhs rhs)
  next
    case False
    have "- 32768 \<le> s * 32767 \<and> s * 32767 \<le> 32767"
      using clamped_scaled_bounds(2) [of r] False by (simp add: s_def)
    then have "sint (word_of_int (js_truncate (s * 32767)) :: 16 word) = js_truncate (s * 32767)"
      using js_truncate_bounds [of "s * 32767"] by (intro sint_ToInt16_small) simp_all
    then show ?thesis using False by (simp add: lhs rhs)
  qed
qed (simp_all add: clampSample_def scaleSample_def js_truncate_def)

text \<open>
  C1 (as stated, refuted). The sample \<open>0.25\<close> is a \<^verbatim>\<open>Float32Array\<close> value;
  \<open>0.25 * 32767 = 8191.75\<close>, which the store into the \<^verbatim>\<open>Int16Array\<close> truncates to
  8191, where rounding gives 8192.
\<close>

theorem float32ToInt16_round_counterexample:
  "map sint (float32ToInt16 [Fin (1 / 4)]) = [8191] \<and> encodeFrame_spec [1 / 4] = [8192]
   \<and> map sint (float32ToInt16 [Fin (1 / 4)]) \<noteq> encodeFrame_spec [1 / 4]"
  by (simp add: float32ToInt16_def clampSample_def scaleSample_def js_truncate_def
      encodeFrame_spec_def round_def)

text \<open>
  C1 (amended). For every input sequence, \<^verbatim>\<open>float32ToInt16\<close> returns one sample per
  input sample: the input clamped to \<open>[-1, 1]\<close>, multiplied by 32768 when the clamped
  value is negative and by 32767 otherwise, and truncated towards zero (not rounded);
  NaN becomes 0. The function is total and the 16-bit store never wraps.
\<close>

theorem float32ToInt16_truncates:
  "map sint (float32ToInt16 float32) = map encodeSample_trunc float32"
  by (simp add: float32ToInt16_def sint_encode_sample)

theorem float32ToInt16_truncates_witness:
  "map sint (float32ToInt16 [Fin (1 / 4), Fin (- 3), NaN, Fin (- 1 / 65536), PosInf])
     = [8191, - 32768, 0, 0, 32767]"
  using float32ToInt16_truncates [of "[Fin (1 / 4), Fin (- 3), NaN, Fin (- 1 / 65536), PosInf]"]
  by (simp add: js_truncate_def ceiling_eq_iff)

text \<open>
  C3. Every output sample of \<^verbatim>\<open>float32ToInt16\<close> is the truncated product itself, which
  lies in \<open>[-32768, 32767]\<close>: the conversion to 16 bits does not wrap around. This holds
  for every input, in particular for every float in \<open>[-1, 1]\<close>.
\<close>

theorem float32ToInt16_range:
  "list_all2 (\<lambda>x y. sint y = encodeSample_trunc x \<and> - 32768 \<le> sint y \<and> sint y \<le> 32767)
     float32 (float32ToInt16 float32)"
  unfolding float32ToInt16_def list_all2_map2
  by (rule list_all2_refl) (simp add: sint_encode_sample encodeSample_trunc_range)

theorem float32ToInt16_range_witness:
  "list_all2 (\<lambda>x y. sint y = encodeSample_trunc x \<and> - 32768 \<le> sint y \<and> sint y \<le> 32767)
     [Fin 1, Fin (- 1), Fin (1 / 2)] [32767, - 32768, 16383 :: 16 word]
   \<and> float32ToInt16 [Fin 1, Fin (- 1), Fin (1 / 2)] = [32767, - 32768, 16383]"
proof -
  have e: "float32ToInt16 [Fin 1, Fin (- 1), Fin (1 / 2)] = [32767, - 32768, 16383]"
    by (simp add: float32ToInt16_def clampSample_def scaleSample_def js_truncate_def)
  show ?thesis
    using float32ToInt16_range [of "[Fin 1, Fin (- 1), Fin (1 / 2)]"] unfolding e by simp
qed

section \<open>Codec: transport text\<close>

lemma index_of_nth:
  "distinct xs \<Longrightarrow> n < length xs \<Longrightarrow> index_of xs (xs ! n) = Some n"
proof (induction xs arbitrary: n)
  case Nil
  then show ?case by simp
next
  case (Cons y ys)
  show ?case
  proof (cases n)
    case 0
    then show ?thesis by simp
  next
    case (Suc m)
    with Cons.prems have "ys ! m \<noteq> y" "m < length ys" "distinct ys" by auto
    with Cons.IH [of m] Suc show ?thesis by simp
  qed
qed

lemma b64_alphabet_distinct: "distinct b64_alphabet"
  by (simp add: b64_alphabet_def js_str_def)

lemma b64_alphabet_length: "length b64_alphabet = 64"
  by (simp add: b64_alphabet_def js_str_def)

lemma b64_value_char: "n < 64 \<Longrightarrow> b64_value (b64_char n) = Some n"
  by (simp add: b64_value_def b64_char_def index_of_nth b64_alphabet_distinct b64_alphabet_length)

lemma b64_char_in_alphabet: "n < 64 \<Longrightarrow> b64_char n \<in> set b64_alphabet"
  by (simp add: b64_char_def b64_alphabet_length)

lemma b64_pad_not_in_alphabet: "b64_pad \<notin> set b64_alphabet"
  by (simp add: b64_alphabet_def js_str_def b64_pad_def)

lemma whitespace_not_in_alphabet: "ascii_whitespace c \<Longrightarrow> c \<notin> set b64_alphabet"
  by (auto simp add: b64_alphabet_def js_str_def ascii_whitespace_def)

lemma b64_char_not_pad: "n < 64 \<Longrightarrow> b64_char n \<noteq> b64_pad"
  using b64_char_in_alphabet b64_pad_not_in_alphabet by metis

lemma b64_char_not_whitespace: "n < 64 \<Longrightarrow> \<not> ascii_whitespace (b64_char n)"
  using b64_char_in_alphabet whitespace_not_in_alphabet by metis

lemma b64_pad_not_whitespace: "\<not> ascii_whitespace b64_pad"
  by (simp add: ascii_whitespace_def b64_pad_def)

lemma recombine2: "(n::nat) div 64 * 64 + n mod 64 = n"
  by simp

lemma recombine3: "((n::nat) div 4096 * 64 + n div 64 mod 64) * 64 + n mod 64 = n"
proof -
  have "n div 4096 = n div 64 div 64" by (simp add: div_mult2_eq)
  then show ?thesis by simp
qed

lemma recombine4:
  "(((n::nat) div 262144 * 64 + n div 4096 mod 64) * 64 + n div 64 mod 64) * 64 + n mod 64 = n"
proof -
  have "n div 262144 = n div 4096 div 64" by (simp add: div_mult2_eq)
  then have "n div 262144 * 64 + n div 4096 mod 64 = n div 4096" by simp
  then show ?thesis using recombine3 [of n] by simp
qed

lemma bytes2:
  fixes a b :: nat
  assumes "b < 256"
  shows "(a * 256 + b) div 256 = a" "(a * 256 + b) mod 256 = b"
  using assms by simp_all

lemma bytes3:
  fixes a b c :: nat
  assumes "b < 256" "c < 256"
  defines "n \<equiv> (a * 256 + b) * 256 + c"
  shows "n div 65536 = a" "n div 256 mod 256 = b" "n mod 256 = c"
proof -
  have d: "n div 256 = a * 256 + b"
    unfolding n_def by (rule bytes2(1) [OF assms(2)])
  have "n div 65536 = n div 256 div 256" by (simp add: div_mult2_eq)
  then show "n div 65536 = a" using bytes2(1) [OF assms(1), of a] by (simp add: d)
  show "n div 256 mod 256 = b" using bytes2(2) [OF assms(1), of a] by (simp add: d)
  show "n mod 256 = c" unfolding n_def by (rule bytes2(2) [OF assms(2)])
qed

lemma values_lt_64:
  fixes a b c :: nat
  assumes "a < 256"
  shows "a * 16 div 64 < 64"
    and "b < 256 \<Longrightarrow> (a * 256 + b) * 4 div 4096 < 64"
    and "b < 256 \<Longrightarrow> c < 256 \<Longrightarrow> ((a * 256 + b) * 256 + c) div 262144 < 64"
proof -
  show "a * 16 div 64 < 64" using assms by simp
  show "(a * 256 + b) * 4 div 4096 < 64" if "b < 256"
  proof -
    have "(a * 256 + b) * 4 < 64 * 4096" using assms that by simp
    then show ?thesis by (simp add: less_mult_imp_div_less)
  qed
  show "((a * 256 + b) * 256 + c) div 262144 < 64" if "b < 256" "c < 256"
  proof -
    have "(a * 256 + b) * 256 + c < 64 * 262144" using assms that by simp
    then show ?thesis by (simp add: less_mult_imp_div_less)
  qed
qed

lemma b64_values_bound:
  "\<forall>b \<in> set bs. b < 256 \<Longrightarrow> \<forall>v \<in> set (b64_values bs). v < 64"
proof (induction bs rule: b64_values.induct)
  case (2 a)
  then show ?case using values_lt_64(1) [of a] by (simp add: Let_def)
next
  case (3 a b)
  then show ?case using values_lt_64(2) [of a b] by (simp add: Let_def)
next
  case (4 a b c bs)
  then show ?case using values_lt_64(3) [of a b c] by (simp add: Let_def)
qed simp

lemma b64_values_length: "length (b64_values bs) mod 4 \<noteq> 1"
  by (induction bs rule: b64_values.induct) (simp_all add: Let_def)

lemma b64_encode_length: "length (b64_encode bs) mod 4 = 0"
  by (induction bs rule: b64_encode.induct) (simp_all add: Let_def)

lemma b64_decode_values_roundtrip:
  "\<forall>b \<in> set bs. b < 256 \<Longrightarrow> b64_decode_values (b64_values bs) = bs"
proof (induction bs rule: b64_values.induct)
  case (2 a)
  define n where "n = a * 16"
  have "(n div 64 * 64 + n mod 64) div 16 = a"
    unfolding recombine2 by (simp add: n_def)
  then show ?case unfolding b64_values.simps Let_def n_def b64_decode_values.simps by simp
next
  case (3 a b)
  then have b: "b < 256" by simp
  define n where "n = (a * 256 + b) * 4"
  have m: "((n div 4096 * 64 + n div 64 mod 64) * 64 + n mod 64) div 4 = a * 256 + b"
    unfolding recombine3 by (simp add: n_def)
  show ?case
    unfolding b64_values.simps Let_def b64_decode_values.simps n_def [symmetric] m
    using bytes2 [OF b] by simp
next
  case (4 a b c bs)
  then have bc: "b < 256" "c < 256" and rest: "\<forall>b \<in> set bs. b < 256" by simp_all
  define n where "n = (a * 256 + b) * 256 + c"
  have "b64_decode_values (b64_values (a # b # c # bs)) =
      [n div 65536, n div 256 mod 256, n mod 256] @ b64_decode_values (b64_values bs)"
    unfolding b64_values.simps Let_def n_def [symmetric] append_Cons append_Nil
      b64_decode_values.simps recombine4 ..
  then show ?case
    using bytes3 [OF bc, of a] "4.IH" [OF refl rest] by (simp add: n_def)
qed simp

lemma b64_encode_no_whitespace:
  "\<forall>b \<in> set bs. b < 256 \<Longrightarrow> filter (\<lambda>c. \<not> ascii_whitespace c) (b64_encode bs) = b64_encode bs"
proof (induction bs rule: b64_encode.induct)
  case (2 a)
  then show ?case
    using values_lt_64(1) [of a]
    by (simp add: Let_def b64_char_not_whitespace b64_pad_not_whitespace)
next
  case (3 a b)
  then show ?case
    using values_lt_64(2) [of a b]
    by (simp add: Let_def b64_char_not_whitespace b64_pad_not_whitespace)
next
  case (4 a b c bs)
  then show ?case
    using values_lt_64(3) [of a b c]
    by (simp add: Let_def b64_char_not_whitespace)
qed simp

lemma strip_padding_append:
  assumes "length g = 4" "e \<noteq> []" "length e mod 4 = 0"
  shows "strip_padding (g @ e) = g @ strip_padding e"
proof -
  have "2 \<le> length e"
  proof (rule ccontr)
    assume "\<not> 2 \<le> length e"
    then have "length e = 0 \<or> length e = 1" by arith
    then show False using assms(2,3) by auto
  qed
  then have "2 \<le> length (rev e)" by simp
  then obtain p q r where r: "rev e = p # q # r"
    by (cases "rev e"; cases "tl (rev e)") auto
  have e: "e = rev r @ [q, p]"
    using r by (metis rev_rev_ident rev.simps append_assoc append_Cons append_Nil)
  have len: "length (g @ e) mod 4 = 0" using assms(1,3) by simp
  have "strip_padding (g @ e) =
      (if p = b64_pad \<and> q = b64_pad then rev (r @ rev g)
       else if p = b64_pad then rev (q # r @ rev g) else g @ e)"
    using len by (simp add: strip_padding_def r)
  moreover have "strip_padding e =
      (if p = b64_pad \<and> q = b64_pad then rev r
       else if p = b64_pad then rev (q # r) else e)"
    using assms(3) by (simp add: strip_padding_def r)
  ultimately show ?thesis by (simp add: e)
qed

lemma strip_padding_encode:
  "\<forall>b \<in> set bs. b < 256 \<Longrightarrow> strip_padding (b64_encode bs) = map b64_char (b64_values bs)"
proof (induction bs rule: b64_encode.induct)
  case 1
  show ?case by (simp add: strip_padding_def)
next
  case (2 a)
  show ?case by (simp add: strip_padding_def Let_def)
next
  case (3 a b)
  then show ?case by (simp add: strip_padding_def Let_def b64_char_not_pad)
next
  case (4 a b c bs)
  then have rest: "\<forall>b \<in> set bs. b < 256" by simp
  define g where "g = (let n = (a * 256 + b) * 256 + c
      in [b64_char (n div 262144), b64_char (n div 4096 mod 64),
          b64_char (n div 64 mod 64), b64_char (n mod 64)])"
  have enc: "b64_encode (a # b # c # bs) = g @ b64_encode bs"
    by (simp add: g_def Let_def)
  have vals: "map b64_char (b64_values (a # b # c # bs)) = g @ map b64_char (b64_values bs)"
    by (simp add: g_def Let_def)
  have lg: "length g = 4" by (simp add: g_def Let_def)
  show ?case
  proof (cases "bs = []")
    case True
    have "strip_padding g = g"
      by (simp add: strip_padding_def g_def Let_def b64_char_not_pad)
    then show ?thesis unfolding enc vals by (simp add: True)
  next
    case False
    then have "b64_encode bs \<noteq> []" by (cases bs rule: b64_encode.cases) (simp_all add: Let_def)
    then have "strip_padding (g @ b64_encode bs) = g @ strip_padding (b64_encode bs)"
      using lg b64_encode_length by (intro strip_padding_append) simp_all
    then show ?thesis unfolding enc vals using "4.IH" [OF refl rest] by simp
  qed
qed

lemma atob_b64_encode:
  assumes "\<forall>b \<in> set bs. b < 256"
  shows "atob (b64_encode bs) = Inr (map of_nat bs)"
proof -
  have d: "strip_padding (filter (\<lambda>c. \<not> ascii_whitespace c) (b64_encode bs))
      = map b64_char (b64_values bs)"
    using assms by (simp add: b64_encode_no_whitespace strip_padding_encode)
  have v: "map (\<lambda>c. the (b64_value c)) (map b64_char (b64_values bs)) = b64_values bs"
    using b64_values_bound [OF assms] by (simp add: map_idI b64_value_char)
  have ok: "\<not> (\<exists>c \<in> set (map b64_char (b64_values bs)). b64_value c = None)"
    using b64_values_bound [OF assms] by (auto simp: b64_value_char)
  show ?thesis
    unfolding atob_def d Let_def
    using b64_values_length [of bs] ok
    by (simp only: length_map v b64_decode_values_roundtrip [OF assms] if_False)
qed

lemma unat_ucast_byte: "unat (ucast (b :: byte) :: 16 word) = unat b"
  by (simp add: unsigned_ucast_eq take_bit_nat_eq_self_iff)
    (use unsigned_less [of b, where 'a = nat] in simp)

lemma ucast_of_nat_unat_byte: "(ucast (of_nat (unat (b::byte)) :: 16 word) :: byte) = b"
  by (simp add: ucast_down_ucast_id is_down)

lemma ucast_byte_le: "(ucast (b :: byte) :: 16 word) \<le> 255"
  by (simp add: word_le_nat_alt unat_ucast_byte)
    (use unsigned_less [of b, where 'a = nat] in simp)

lemma btoa_bytes:
  "btoa (map String_fromCharCode bytes) = Inr (b64_encode (map unat bytes))"
proof -
  have "\<not> (\<exists>c \<in> set (map String_fromCharCode bytes). 255 < c)"
    using ucast_byte_le by (auto simp: String_fromCharCode_def not_less)
  moreover have "map unat (map String_fromCharCode bytes) = map unat bytes"
    by (simp add: String_fromCharCode_def unat_ucast_byte)
  ultimately show ?thesis unfolding btoa_def by (simp only: if_False)
qed

lemma unat_byte_lt: "\<forall>b \<in> set (map unat (bytes :: byte list)). b < 256"
proof -
  have "unat b < 256" for b :: byte
    using unsigned_less [of b, where 'a = nat] by simp
  then show ?thesis by simp
qed

lemma base64ToBytes_b64_encode: "base64ToBytes (b64_encode (map unat b)) = Inr b"
proof -
  have "atob (b64_encode (map unat b)) = Inr (map of_nat (map unat b))"
    by (rule atob_b64_encode [OF unat_byte_lt])
  moreover have "map ucast (map of_nat (map unat b) :: js_string) = b"
    using ucast_of_nat_unat_byte by (simp add: map_idI comp_def)
  ultimately show ?thesis by (simp add: base64ToBytes_def)
qed

text \<open>
  C2. For every byte sequence \<open>b\<close>, \<^verbatim>\<open>arrayBufferToBase64\<close> returns a text (\<^verbatim>\<open>btoa\<close>
  does not throw), and the decoding at the start of \<^verbatim>\<open>play\<close> applied to that text
  returns exactly \<open>b\<close>.
\<close>

theorem base64_roundtrip:
  "arrayBufferToBase64 b = Inr (b64_encode (map unat b))
   \<and> base64ToBytes (b64_encode (map unat b)) = Inr b"
  by (simp add: arrayBufferToBase64_def btoa_bytes base64ToBytes_b64_encode)

theorem base64_roundtrip_witness:
  "arrayBufferToBase64 [0, 255, 128, 77, 61] = Inr (js_str ''AP+ATT0='')
   \<and> base64ToBytes (js_str ''AP+ATT0='') = Inr [0, 255, 128, 77, 61]"
proof -
  have e: "b64_encode (map unat [0, 255, 128, 77, 61 :: byte]) = js_str ''AP+ATT0=''"
    by (simp add: Let_def b64_char_def b64_alphabet_def b64_pad_def js_str_def)
  show ?thesis using base64_roundtrip [of "[0, 255, 128, 77, 61]"] unfolding e .
qed

section \<open>Playback scheduler: play\<close>





lemma schedule_nodes:
  "sourceNodesRef (schedule now buffer st) =
     sourceNodesRef st @ [\<lparr>node_id = nextNodeId st, node_buffer = buffer,
                            start_when = max (nextStartTimeRef st) now\<rparr>]"
  by (simp add: schedule_def Let_def max_def)








lemma play_no_context: "audioContextRef st = None \<Longrightarrow> play now chunk st = Inr st"
  by (simp add: play_def)







text \<open>
  C10. When no output context exists (\<^verbatim>\<open>init\<close> was never called), \<^verbatim>\<open>play\<close> returns
  without scheduling anything: the whole state, with the cursor, the tracked nodes, the
  playing status and the calls made on the device, is unchanged.
\<close>

theorem play_before_init:
  "audioContextRef st = None \<longrightarrow> play currentTime chunk st = Inr st"
  by (simp add: play_no_context)

theorem play_before_init_witness:
  "audioContextRef (useAudioPlayer 24000) = None
   \<and> play 0 (silence 24000) (useAudioPlayer 24000) = Inr (useAudioPlayer 24000)"
proof -
  have n: "audioContextRef (useAudioPlayer 24000) = None" by (simp add: useAudioPlayer_def)
  show ?thesis using play_before_init [of "useAudioPlayer 24000" 0 "silence 24000"] n by simp
qed

section \<open>Playback scheduler: stop\<close>

text \<open>
  Before \<^verbatim>\<open>init\<close> the player stays in its initial state: \<^verbatim>\<open>play\<close> returns at once (see
  above), and neither \<^verbatim>\<open>stop\<close> nor an \<^verbatim>\<open>onended\<close> event changes anything.
\<close>

lemma stop_before_init: "stop halt t (useAudioPlayer rate) = Inr (useAudioPlayer rate)"
  by (simp add: stop_def useAudioPlayer_def Let_def)

lemma onended_before_init: "onended node (useAudioPlayer rate) = useAudioPlayer rate"
  by (simp add: onended_def useAudioPlayer_def Let_def)

text \<open>When the last tracked node ends, the playing status becomes false.\<close>

lemma onended_last:
  "sourceNodesRef st = [node] \<Longrightarrow> isPlaying (onended node st) = False"
  by (simp add: onended_def Let_def)

lemma stop_each_device:
  "stop_each halt nodes st =
     st\<lparr>device := device st @ map (\<lambda>n. Stop (node_id n)) (filter (\<lambda>n. halt n = None) nodes)\<rparr>"
proof (induction nodes arbitrary: st)
  case Nil
  show ?case by simp
next
  case (Cons node nodes)
  show ?case
    by (cases "halt node") (simp_all add: Cons.IH node_stop_def)
qed

text \<open>
  C6. In every scheduler state, \<^verbatim>\<open>stop\<close> returns normally: it calls \<^verbatim>\<open>node.stop()\<close> on
  every tracked node, an exception of such a call being swallowed, leaves the
  tracked-node list empty, sets the playing status to false and resets the cursor to the
  device's current time. The device time is read from the output context: a player
  without a context has no device time, the time argument is not read and the cursor
  keeps its value (0 in the only such state that can be reached, see
  \<open>stop_before_init\<close>). A second \<^verbatim>\<open>stop\<close> right after, with nothing playing, returns
  normally too and makes no further call on the device.
\<close>

theorem stop_total:
  "\<exists>st'. stop halt currentTime st = Inr st'
      \<and> device st' = device st @
           map (\<lambda>n. Stop (node_id n)) (filter (\<lambda>n. halt n = None) (sourceNodesRef st))
      \<and> sourceNodesRef st' = []
      \<and> nextStartTimeRef st' =
           (if audioContextRef st = None then nextStartTimeRef st else currentTime)
      \<and> isPlaying st' = False
      \<and> audioContextRef st' = audioContextRef st
      \<and> (\<exists>st''. stop halt' currentTime st' = Inr st''
            \<and> device st'' = device st' \<and> sourceNodesRef st'' = []
            \<and> nextStartTimeRef st'' = nextStartTimeRef st' \<and> isPlaying st'' = False)"
  by (cases "audioContextRef st") (simp_all add: stop_def Let_def stop_each_device)

theorem stop_total_witness:
  "\<exists>st'. stop (\<lambda>n. if node_id n = 0 then Some RangeError else None) 5
           \<lparr>audioContextRef = Some Running, nextStartTimeRef = 1 / 6000,
            sourceNodesRef =
              [\<lparr>node_id = 0, node_buffer = \<lparr>numberOfFrames = 2, bufferRate = 24000,
                  channelData = [Fin 0, Fin 0]\<rparr>, start_when = 0\<rparr>,
               \<lparr>node_id = 1, node_buffer = \<lparr>numberOfFrames = 2, bufferRate = 24000,
                  channelData = [Fin 0, Fin 0]\<rparr>, start_when = 1 / 12000\<rparr>],
            isPlaying = True, sampleRate = 24000, nextNodeId = 2, device = []\<rparr> = Inr st'
      \<and> device st' = [Stop 1] \<and> sourceNodesRef st' = []
      \<and> nextStartTimeRef st' = 5 \<and> isPlaying st' = False"
  using stop_total [of "\<lambda>n. if node_id n = 0 then Some RangeError else None" 5
      "\<lparr>audioContextRef = Some Running, nextStartTimeRef = 1 / 6000,
            sourceNodesRef =
              [\<lparr>node_id = 0, node_buffer = \<lparr>numberOfFrames = 2, bufferRate = 24000,
                  channelData = [Fin 0, Fin 0]\<rparr>, start_when = 0\<rparr>,
               \<lparr>node_id = 1, node_buffer = \<lparr>numberOfFrames = 2, bufferRate = 24000,
                  channelData = [Fin 0, Fin 0]\<rparr>, start_when = 1 / 12000\<rparr>],
            isPlaying = True, sampleRate = 24000, nextNodeId = 2, device = []\<rparr>"
      "\<lambda>n. None"]
  by auto

section \<open>Session protocol: inbound messages\<close>




text \<open>
  C9 (as stated, refuted). A message whose only inlined audio payload is in the second
  element of \<^verbatim>\<open>parts\<close>: \<^verbatim>\<open>onmessage\<close> reads \<^verbatim>\<open>parts?.[0]\<close> only and calls nothing.
\<close>

theorem onmessage_audio_second_part_counterexample:
  "audio_anywhere \<lparr>serverContent = Some \<lparr>outputTranscription = None, turnComplete = None,
       interrupted = None,
       modelTurn = Some \<lparr>parts = Some [\<lparr>inlineData = None\<rparr>,
          \<lparr>inlineData = Some \<lparr>blob_data = Some (js_str ''AAAA'')\<rparr>\<rparr>]\<rparr>\<rparr>\<rparr>
   \<and> onmessage \<lparr>serverContent = Some \<lparr>outputTranscription = None, turnComplete = None,
       interrupted = None,
       modelTurn = Some \<lparr>parts = Some [\<lparr>inlineData = None\<rparr>,
          \<lparr>inlineData = Some \<lparr>blob_data = Some (js_str ''AAAA'')\<rparr>\<rparr>]\<rparr>\<rparr>\<rparr> = []
   \<and> \<not> list_ex is_audio
       (onmessage \<lparr>serverContent = Some \<lparr>outputTranscription = None, turnComplete = None,
          interrupted = None,
          modelTurn = Some \<lparr>parts = Some [\<lparr>inlineData = None\<rparr>,
             \<lparr>inlineData = Some \<lparr>blob_data = Some (js_str ''AAAA'')\<rparr>\<rparr>]\<rparr>\<rparr>\<rparr>)"
  by (simp add: audio_anywhere_def onmessage_def outputTx_def turnEnded_def audioData_def js_str_def)

text \<open>
  C9 (amended). For every inbound message, the transcript callback is called when a
  non-empty transcription text is present, the turn-end callback when \<^verbatim>\<open>turnComplete\<close>
  or \<^verbatim>\<open>interrupted\<close> is true, and the audio callback when the first element of
  \<^verbatim>\<open>parts\<close> carries a non-empty inlined audio payload; a message that carries all three
  triggers the three calls, in this order.
\<close>

theorem onmessage_all_callbacks:
  "(outputTx message = Some tx \<and> tx \<noteq> [] \<longrightarrow> OnTranscription tx \<in> set (onmessage message))
   \<and> (Option.bind (serverContent message) turnComplete = Some True
        \<or> Option.bind (serverContent message) interrupted = Some True
        \<longrightarrow> OnTurnEnd \<in> set (onmessage message))
   \<and> (audioData message = Some d \<and> d \<noteq> [] \<longrightarrow> OnAudioData d \<in> set (onmessage message))
   \<and> (outputTx message = Some tx \<and> tx \<noteq> [] \<and> turnEnded message
        \<and> audioData message = Some d \<and> d \<noteq> []
        \<longrightarrow> onmessage message = [OnTranscription tx, OnTurnEnd, OnAudioData d])"
  by (auto simp: onmessage_def turnEnded_def split: option.splits)

theorem onmessage_all_callbacks_witness:
  "onmessage \<lparr>serverContent = Some \<lparr>outputTranscription = Some \<lparr>transcription_text = Some (js_str ''Hi'')\<rparr>,
       turnComplete = None, interrupted = Some True,
       modelTurn = Some \<lparr>parts = Some [\<lparr>inlineData = Some \<lparr>blob_data = Some (js_str ''AAAA'')\<rparr>\<rparr>]\<rparr>\<rparr>\<rparr>
     = [OnTranscription (js_str ''Hi''), OnTurnEnd, OnAudioData (js_str ''AAAA'')]"
  using onmessage_all_callbacks [of
     "\<lparr>serverContent = Some \<lparr>outputTranscription = Some \<lparr>transcription_text = Some (js_str ''Hi'')\<rparr>,
       turnComplete = None, interrupted = Some True,
       modelTurn = Some \<lparr>parts = Some [\<lparr>inlineData = Some \<lparr>blob_data = Some (js_str ''AAAA'')\<rparr>\<rparr>]\<rparr>\<rparr>\<rparr>"
     "js_str ''Hi''" "js_str ''AAAA''"]
  by (simp add: outputTx_def audioData_def turnEnded_def js_str_def)

section \<open>Session protocol: outbound audio\<close>

lemma sendAudioChunk_after_disconnect:
  "sendAudioChunk base64PCM (disconnect svc) = Inr (disconnect svc)"
  by (simp add: sendAudioChunk_def disconnect_def)

text \<open>
  C8 (as stated, refuted). After a failed \<^verbatim>\<open>connect\<close> no channel is open, but the
  session promise is set and rejected: \<^verbatim>\<open>sendAudioChunk\<close> is then not a no-op, the
  \<^verbatim>\<open>await\<close> throws and the \<^verbatim>\<open>catch\<close> writes a line to the console for every chunk.
\<close>

theorem sendAudioChunk_rejected_counterexample:
  "\<not> channelOpen \<lparr>sessionPromise = Some (Rejected TransportError),
                    sendRealtimeInput_calls = [], console_error = []\<rparr>
   \<and> sendAudioChunk (js_str ''AAAA'')
        \<lparr>sessionPromise = Some (Rejected TransportError),
         sendRealtimeInput_calls = [], console_error = []\<rparr>
     = Inr \<lparr>sessionPromise = Some (Rejected TransportError),
            sendRealtimeInput_calls = [],
            console_error = [(''Error sending audio chunk'', TransportError)]\<rparr>
   \<and> sendAudioChunk (js_str ''AAAA'')
        \<lparr>sessionPromise = Some (Rejected TransportError),
         sendRealtimeInput_calls = [], console_error = []\<rparr>
     \<noteq> Inr \<lparr>sessionPromise = Some (Rejected TransportError),
             sendRealtimeInput_calls = [], console_error = []\<rparr>"
  by (simp add: channelOpen_def sendAudioChunk_def sendAudioChunk_try_def)

text \<open>
  C8 (amended). For every chunk and every service state, \<^verbatim>\<open>sendAudioChunk\<close> returns
  normally. It is a no-op when no session promise is held (before \<^verbatim>\<open>connect\<close>, after
  \<^verbatim>\<open>disconnect\<close>). With an open session the chunk is passed to \<^verbatim>\<open>sendRealtimeInput\<close>
  tagged with the MIME type \<open>audio/pcm;rate=16000\<close>, and an exception of that call is
  written to the console, not propagated. With a rejected session promise nothing is
  sent and the rejection is written to the console, not propagated.
\<close>

theorem sendAudioChunk_never_throws:
  "\<exists>svc'. sendAudioChunk base64PCM svc = Inr svc'
     \<and> sessionPromise svc' = sessionPromise svc
     \<and> (sessionPromise svc = None \<longrightarrow> svc' = svc)
     \<and> (\<forall>session. sessionPromise svc = Some (Resolved session) \<longrightarrow>
           sendRealtimeInput_calls svc' = sendRealtimeInput_calls svc @
             [\<lparr>mimeType = js_str ''audio/pcm;rate=16000'', media_data = base64PCM\<rparr>]
           \<and> console_error svc' = console_error svc @
             (case session \<lparr>mimeType = js_str ''audio/pcm;rate=16000'', media_data = base64PCM\<rparr> of
                None \<Rightarrow> []
              | Some e \<Rightarrow> [(''Error sending audio chunk'', e)]))
     \<and> (\<forall>e. sessionPromise svc = Some (Rejected e) \<longrightarrow>
           sendRealtimeInput_calls svc' = sendRealtimeInput_calls svc
           \<and> console_error svc' = console_error svc @ [(''Error sending audio chunk'', e)])"
  by (auto simp: sendAudioChunk_def sendAudioChunk_try_def Let_def
      split: option.splits session_promise.splits)

theorem sendAudioChunk_never_throws_witness:
  "sendAudioChunk (js_str ''AAAA'')
      \<lparr>sessionPromise = Some (Resolved (\<lambda>input. Some TransportError)),
       sendRealtimeInput_calls = [], console_error = []\<rparr>
     = Inr \<lparr>sessionPromise = Some (Resolved (\<lambda>input. Some TransportError)),
            sendRealtimeInput_calls =
              [\<lparr>mimeType = js_str ''audio/pcm;rate=16000'', media_data = js_str ''AAAA''\<rparr>],
            console_error = [(''Error sending audio chunk'', TransportError)]\<rparr>
   \<and> sendAudioChunk (js_str ''AAAA'')
        \<lparr>sessionPromise = None, sendRealtimeInput_calls = [], console_error = []\<rparr>
     = Inr \<lparr>sessionPromise = None, sendRealtimeInput_calls = [], console_error = []\<rparr>"
proof -
  let ?svc = "\<lparr>sessionPromise = Some (Resolved (\<lambda>input. Some TransportError)),
       sendRealtimeInput_calls = [], console_error = []\<rparr>"
  let ?idle = "\<lparr>sessionPromise = None, sendRealtimeInput_calls = [], console_error = []\<rparr>"
  from sendAudioChunk_never_throws [of "js_str ''AAAA''" ?svc]
  obtain svc' where "sendAudioChunk (js_str ''AAAA'') ?svc = Inr svc'"
    and "sessionPromise svc' = sessionPromise ?svc"
    and "sendRealtimeInput_calls svc' =
       [\<lparr>mimeType = js_str ''audio/pcm;rate=16000'', media_data = js_str ''AAAA''\<rparr>]"
    and "console_error svc' = [(''Error sending audio chunk'', TransportError)]"
    by auto
  then have a: "sendAudioChunk (js_str ''AAAA'') ?svc = Inr \<lparr>sessionPromise = Some (Resolved (\<lambda>input. Some TransportError)),
            sendRealtimeInput_calls =
              [\<lparr>mimeType = js_str ''audio/pcm;rate=16000'', media_data = js_str ''AAAA''\<rparr>],
            console_error = [(''Error sending audio chunk'', TransportError)]\<rparr>"
    by (cases svc') simp
  from sendAudioChunk_never_throws [of "js_str ''AAAA''" ?idle]
  have b: "sendAudioChunk (js_str ''AAAA'') ?idle = Inr ?idle" by auto
  from a b show ?thesis by simp
qed

end
